theory Spec2Isabelle
  imports Main "HOL-Library.Word"
begin

unbundle bit_operations_syntax

section \<open>Machine types\<close>

type_synonym u8 = "8 word"
type_synonym u32 = "32 word"
type_synonym u64 = "64 word"

text \<open>\<^verbatim>\<open>int32_t\<close> / \<^verbatim>\<open>ghidra::int4\<close>: a 32-bit word read in two's complement
  (\<open>sint\<close>, \<open><s\<close>).\<close>

type_synonym i32 = "32 word"

text \<open>Reading or writing through a pointer outside the object it points to is undefined
  behaviour in C++. The model makes each such access a fault, so that a theorem about a
  result is a theorem about a run without undefined behaviour.\<close>

datatype fault = OutOfBoundsRead | OutOfBoundsWrite

section \<open>The memory image adapter: \<^verbatim>\<open>ArbitraryLoader\<close>\<close>

text \<open>\<^verbatim>\<open>struct MemoryDescription { uint64_t base_address; uint64_t size; uint8_t *data; }\<close>.
  The field \<open>data\<close> is the caller's byte buffer the pointer refers to.\<close>

record MemoryDescription =
  base_address :: u64
  size_md :: u64
  data :: "u8 list"

record ArbitraryLoader =
  max_addr :: u64
  min_addr :: u64
  regions :: "MemoryDescription list"

text \<open>The member initialisers: \<^verbatim>\<open>max_addr = 0\<close>, \<^verbatim>\<open>min_addr = 0xffffffffffffffff\<close>,
  an empty vector.\<close>

definition ArbitraryLoader_new :: ArbitraryLoader where
  "ArbitraryLoader_new = \<lparr>max_addr = 0, min_addr = 0xffffffffffffffff, regions = []\<rparr>"

text \<open>\<^verbatim>\<open>base()\<close>: the loop over the vector, started at \<^verbatim>\<open>UINT64_MAX\<close>.\<close>

fun base_loop :: "MemoryDescription list \<Rightarrow> u64 \<Rightarrow> u64" where
  "base_loop [] base = base"
| "base_loop (it # rest) base =
     (let iter_base = base_address it
      in if iter_base < base then base_loop rest iter_base else base_loop rest base)"

definition base :: "ArbitraryLoader \<Rightarrow> u64" where
  "base L = base_loop (regions L) 0xffffffffffffffff"

text \<open>\<^verbatim>\<open>load_region\<close>: \<^verbatim>\<open>push_back\<close> of the new description, then the two running
  bounds. \<^verbatim>\<open>address + size\<close> is a 64-bit sum and wraps.\<close>

definition load_region :: "ArbitraryLoader \<Rightarrow> u64 \<Rightarrow> u64 \<Rightarrow> u8 list \<Rightarrow> ArbitraryLoader" where
  "load_region L address sz input_data =
     (let desc = \<lparr>base_address = address, size_md = sz, data = input_data\<rparr>;
          L1 = L\<lparr>regions := regions L @ [desc]\<rparr>;
          L2 = (if address < min_addr L1 then L1\<lparr>min_addr := address\<rparr> else L1);
          L3 = (if address + sz > max_addr L2 then L2\<lparr>max_addr := address + sz\<rparr> else L2)
      in L3)"

text \<open>\<^verbatim>\<open>region_from_address\<close>: the scan of the vector from \<^verbatim>\<open>begin()\<close>, with its two
  \<^verbatim>\<open>continue\<close> tests in the source's order; \<open>None\<close> is \<^verbatim>\<open>nullptr\<close>.\<close>

fun region_scan :: "MemoryDescription list \<Rightarrow> u64 \<Rightarrow> MemoryDescription option" where
  "region_scan [] address = None"
| "region_scan (guess # rest) address =
     (if base_address guess > address then region_scan rest address
      else if base_address guess + size_md guess \<le> address then region_scan rest address
      else Some guess)"

definition region_from_address :: "ArbitraryLoader \<Rightarrow> u64 \<Rightarrow> MemoryDescription option" where
  "region_from_address L address = region_scan (regions L) address"

text \<open>The containment test in the words of the specification: the region starts at or
  before the address and ends after it.\<close>

definition owns :: "MemoryDescription \<Rightarrow> u64 \<Rightarrow> bool" where
  "owns r a \<longleftrightarrow> base_address r \<le> a \<and> base_address r + size_md r > a"

subsection \<open>\<^verbatim>\<open>loadFill\<close>\<close>

text \<open>The four locals of \<^verbatim>\<open>loadFill\<close>; \<open>out\<close> is the buffer behind \<^verbatim>\<open>ptr\<close>.\<close>

record fill_state =
  out :: "u8 list"
  write_idx :: u64
  search_address :: u64
  bytes_remaining :: i32

text \<open>One store \<^verbatim>\<open>out[write_idx] = b\<close> followed by the three counter updates.\<close>

definition put_byte :: "u8 \<Rightarrow> fill_state \<Rightarrow> fault + fill_state" where
  "put_byte b st =
     (if unat (write_idx st) < length (out st)
      then Inr (st\<lparr>out := (out st)[unat (write_idx st) := b],
                   write_idx := write_idx st + 1,
                   search_address := search_address st + 1,
                   bytes_remaining := bytes_remaining st - 1\<rparr>)
      else Inl OutOfBoundsWrite)"

lemma sint_pred_i32: "0 <s (b::i32) \<Longrightarrow> sint (b - 1) = sint b - 1"
proof -
  assume "0 <s b"
  then have pos: "0 < sint b" by (simp add: word_sless_alt)
  have up: "sint b < 2 ^ 31" using sint_lt [of b] by simp
  have "sint (b - 1) = signed_take_bit 31 (sint b - 1)"
    by (simp add: sint_word_ariths)
  also have "\<dots> = sint b - 1"
    using pos up by (simp add: signed_take_bit_int_eq_self)
  finally show ?thesis .
qed

lemma put_byte_decreases:
  "0 <s bytes_remaining st \<Longrightarrow> put_byte b st = Inr st' \<Longrightarrow>
   nat (sint (bytes_remaining st')) < nat (sint (bytes_remaining st))"
  by (auto simp: put_byte_def sint_pred_i32 word_sless_alt split: if_splits)

text \<open>The inner \<^verbatim>\<open>for\<close> loop: \<^verbatim>\<open>for (i = region_index; i < region->size && bytes_remaining > 0; i++)\<close>.\<close>

function copy_region :: "MemoryDescription \<Rightarrow> u64 \<Rightarrow> fill_state \<Rightarrow> fault + fill_state" where
  "copy_region region i st =
     (if i < size_md region \<and> 0 <s bytes_remaining st
      then (if unat i < length (data region)
            then (case put_byte (data region ! unat i) st of
                    Inl f \<Rightarrow> Inl f
                  | Inr st' \<Rightarrow> copy_region region (i + 1) st')
            else Inl OutOfBoundsRead)
      else Inr st)"
  by pat_completeness auto
termination
  by (relation "measure (\<lambda>(region, i, st). nat (sint (bytes_remaining st)))")
     (auto dest: put_byte_decreases)

declare copy_region.simps [simp del]

lemma copy_region_le:
  "copy_region region i st = Inr st' \<Longrightarrow>
   sint (bytes_remaining st') \<le> sint (bytes_remaining st)"
proof (induction region i st rule: copy_region.induct)
  case (1 region i st)
  show ?case
  proof (cases "i < size_md region \<and> 0 <s bytes_remaining st")
    case False
    with "1.prems" show ?thesis by (simp add: copy_region.simps [of region i st])
  next
    case True
    with "1.prems" have rd: "unat i < length (data region)"
      by (simp add: copy_region.simps [of region i st] split: if_splits)
    from True rd "1.prems" obtain st1 where
      pb: "put_byte (data region ! unat i) st = Inr st1" and
      rest: "copy_region region (i + 1) st1 = Inr st'"
      by (auto simp: copy_region.simps [of region i st] split: sum.splits)
    from "1.IH" [OF True rd pb rest] put_byte_decreases [OF _ pb] True
    show ?thesis by (simp add: word_sless_alt)
  qed
qed

lemma copy_region_decreases:
  assumes "i < size_md region" and "0 <s bytes_remaining st"
    and "copy_region region i st = Inr st'"
  shows "nat (sint (bytes_remaining st')) < nat (sint (bytes_remaining st))"
proof -
  from assms have rd: "unat i < length (data region)"
    by (simp add: copy_region.simps [of region i st] split: if_splits)
  from assms rd obtain st1 where
    pb: "put_byte (data region ! unat i) st = Inr st1" and
    rest: "copy_region region (i + 1) st1 = Inr st'"
    by (auto simp: copy_region.simps [of region i st] split: sum.splits)
  from copy_region_le [OF rest] put_byte_decreases [OF assms(2) pb] assms(2)
  show ?thesis by (simp add: word_sless_alt)
qed

lemma region_scan_Some:
  "region_scan rs a = Some r \<Longrightarrow> r \<in> set rs \<and> owns r a"
  by (induction rs) (auto simp: owns_def split: if_splits)

lemma owns_index:
  assumes "owns r a"
  shows "a - base_address r < size_md r"
proof -
  from assms have le: "unat (base_address r) \<le> unat a"
    and lt: "unat a < unat (base_address r + size_md r)"
    by (simp_all add: owns_def word_le_nat_alt word_less_nat_alt)
  have "unat (base_address r + size_md r) \<le> unat (base_address r) + unat (size_md r)"
    by (simp add: unat_word_ariths)
  with lt have "unat a - unat (base_address r) < unat (size_md r)"
    using le by linarith
  moreover have "unat (a - base_address r) = unat a - unat (base_address r)"
    using assms by (simp add: owns_def unat_sub)
  ultimately show ?thesis by (simp add: word_less_nat_alt)
qed

text \<open>The \<^verbatim>\<open>while (bytes_remaining > 0)\<close> loop.\<close>

function fill_loop :: "ArbitraryLoader \<Rightarrow> fill_state \<Rightarrow> fault + fill_state" where
  "fill_loop L st =
     (if 0 <s bytes_remaining st
      then (case region_from_address L (search_address st) of
              None \<Rightarrow>
                (case put_byte 0 st of
                   Inl f \<Rightarrow> Inl f
                 | Inr st' \<Rightarrow> fill_loop L st')
            | Some region \<Rightarrow>
                (let region_index = search_address st - base_address region
                 in case copy_region region region_index st of
                      Inl f \<Rightarrow> Inl f
                    | Inr st' \<Rightarrow> fill_loop L st'))
      else Inr st)"
  by pat_completeness auto
termination
proof (relation "measure (\<lambda>(L, st). nat (sint (bytes_remaining st)))", goal_cases)
  case 1
  show ?case by simp
next
  case (2 L st st')
  then show ?case by (auto dest: put_byte_decreases)
next
  case (3 L st region region_index st')
  from 3(2) have "owns region (search_address st)"
    by (simp add: region_from_address_def region_scan_Some)
  then have "region_index < size_md region"
    using 3(3) by (simp add: owns_index)
  from copy_region_decreases [OF this 3(1) 3(4)] show ?case by simp
qed

declare fill_loop.simps [simp del]

text \<open>\<^verbatim>\<open>loadFill(ptr, size, addr)\<close>: the early return on \<^verbatim>\<open>search_address > max_addr\<close>,
  then the loop. The result is the buffer behind \<^verbatim>\<open>ptr\<close> when the call returns.\<close>

definition loadFill :: "ArbitraryLoader \<Rightarrow> u8 list \<Rightarrow> i32 \<Rightarrow> u64 \<Rightarrow> fault + u8 list" where
  "loadFill L ptr sz addr =
     (let st = \<lparr>out = ptr, write_idx = 0, search_address = addr, bytes_remaining = sz\<rparr>
      in if search_address st > max_addr L then Inr (out st)
         else (case fill_loop L st of
                 Inl f \<Rightarrow> Inl f
               | Inr st' \<Rightarrow> Inr (out st')))"

section \<open>Exported descriptors\<close>

text \<open>The C structs handed across the foreign-call boundary. A \<^verbatim>\<open>char[N]\<close> field is
  the list of its \<open>N\<close> bytes; a \<^verbatim>\<open>char *\<close> is \<open>None\<close> for \<^verbatim>\<open>nullptr\<close> and otherwise the
  C string it points to; a pointer to an array is the list of its elements.\<close>

record VarnodeDesc =
  space :: string
  offset :: u64
  size_vd :: u64

record PcodeOp =
  opcode :: nat
  output_vd :: "VarnodeDesc option"
  input_len :: u64
  inputVarnodes :: "VarnodeDesc list"

record InsnDesc =
  op_count :: u64
  ops :: "PcodeOp list"
  size_id :: u64
  address_id :: u64
  insn :: "string option"
  insn_len :: u64
  body :: "string option"
  body_len :: u64

record RegisterDesc =
  name :: string
  varnode :: VarnodeDesc

record RegisterList =
  register_count :: u64
  registers :: "RegisterDesc list"

text \<open>\<^verbatim>\<open>new (std::nothrow) T\<close> returns storage whose contents are indeterminate; the source
  never tests the pointer, and the model follows the runs in which the allocation
  succeeds. The indeterminate contents are a parameter of every function that allocates,
  one value for each type allocated.\<close>

record allocator =
  new_VarnodeDesc :: VarnodeDesc
  new_InsnDesc :: InsnDesc
  new_RegisterDesc :: RegisterDesc

subsection \<open>C strings\<close>

definition NUL :: char where
  "NUL = CHR 0x00"

text \<open>What a reader of \<^verbatim>\<open>s.c_str()\<close> sees: the characters before the first NUL.\<close>

definition c_str :: "string \<Rightarrow> string" where
  "c_str s = takeWhile (\<lambda>c. c \<noteq> NUL) s"

text \<open>\<^verbatim>\<open>strdup\<close> of a C string: a copy with the same characters.\<close>

definition strdup :: "string \<Rightarrow> string" where
  "strdup s = s"

text \<open>\<^verbatim>\<open>strncpy(dest, src, n)\<close> stores exactly \<open>n\<close> bytes: the characters of \<open>src\<close>, at most
  \<open>n\<close> of them, then NULs. \<open>dest\<close> is the array before the call and the result the array
  after it; a result longer than \<open>dest\<close> means bytes were stored past its end.\<close>

definition strncpy :: "string \<Rightarrow> string \<Rightarrow> nat \<Rightarrow> string" where
  "strncpy dest src n = take n src @ replicate (n - length src) NUL @ drop n dest"

section \<open>The decoding engine\<close>

text \<open>The engine (libsla) is linked, not part of the repository. Its types are taken from
  its headers: \<^verbatim>\<open>VarnodeData { AddrSpace *space; uintb offset; uint4 size; }\<close>, of which
  the code reads \<^verbatim>\<open>space->getName()\<close>, \<^verbatim>\<open>offset\<close> and \<^verbatim>\<open>size\<close>; and the exception
  classes \<^verbatim>\<open>BadDataError\<close> and \<^verbatim>\<open>UnimplError\<close>, both derived from \<^verbatim>\<open>LowlevelError\<close>,
  each carrying the message \<^verbatim>\<open>explain\<close>.\<close>

record VarnodeData =
  vn_space :: string
  vn_offset :: u64
  vn_size :: u32

datatype engine_error = LowlevelError string | BadDataError string | UnimplError string

fun explain :: "engine_error \<Rightarrow> string" where
  "explain (LowlevelError s) = s"
| "explain (BadDataError s) = s"
| "explain (UnimplError s) = s"

text \<open>Which handler an exception reaches: \<^verbatim>\<open>catch (ghidra::BadDataError &)\<close> takes that
  class only, \<^verbatim>\<open>catch (ghidra::LowlevelError &)\<close> the base class and everything derived.\<close>

fun catch_BadDataError :: "engine_error \<Rightarrow> bool" where
  "catch_BadDataError (BadDataError s) = True"
| "catch_BadDataError e = False"

fun catch_LowlevelError :: "engine_error \<Rightarrow> bool" where
  "catch_LowlevelError e = True"

text \<open>The arguments of one callback: \<^verbatim>\<open>AssemblyEmit::dump(addr, text, body)\<close> and
  \<^verbatim>\<open>PcodeEmit::dump(addr, opcode, output, inputs, input_len)\<close>. The array \<^verbatim>\<open>inputs\<close> with
  its length \<^verbatim>\<open>input_len\<close> is one list; a null \<^verbatim>\<open>output\<close> is \<open>None\<close>.\<close>

record asm_args =
  aa_addr :: u64
  aa_text :: string
  aa_body :: string

record pcode_args =
  pa_opcode :: nat
  pa_output :: "VarnodeData option"
  pa_inputs :: "VarnodeData list"

text \<open>A call into the engine makes some callbacks on the emitter it was given, then
  returns a length or throws. The engine is a parameter: \<open>'e\<close> is its state (the
  \<^verbatim>\<open>Sleigh\<close> object with its context and document store), and each entry point maps that
  state, the loader it reads bytes from and the arguments to the callbacks made, the
  outcome and the next state.\<close>

record 'e engine =
  printAssembly :: "'e \<Rightarrow> ArbitraryLoader \<Rightarrow> u64 \<Rightarrow> (asm_args list \<times> (engine_error + i32)) \<times> 'e"
  oneInstruction :: "'e \<Rightarrow> ArbitraryLoader \<Rightarrow> u64 \<Rightarrow> (pcode_args list \<times> (engine_error + i32)) \<times> 'e"
  setVariableDefault :: "'e \<Rightarrow> string \<Rightarrow> u32 \<Rightarrow> engine_error option \<times> 'e"
  getAllRegisters :: "'e \<Rightarrow> (VarnodeData \<times> string) list"

section \<open>The collectors\<close>

record ArbitraryAsmEmitter =
  insn_size :: u64
  address :: u64
  insn_text :: "string option"
  insn_text_len :: u64
  insn_body :: "string option"
  insn_body_len :: u64

definition clear :: "ArbitraryAsmEmitter \<Rightarrow> ArbitraryAsmEmitter" where
  "clear e = e\<lparr>insn_size := 0, address := 0, insn_text := None, insn_text_len := 0,
               insn_body := None, insn_body_len := 0\<rparr>"

text \<open>\<^verbatim>\<open>ArbitraryAsmEmitter::dump\<close>.\<close>

definition asm_dump :: "ArbitraryAsmEmitter \<Rightarrow> asm_args \<Rightarrow> ArbitraryAsmEmitter" where
  "asm_dump e c =
     e\<lparr>address := aa_addr c,
       insn_text := Some (strdup (c_str (aa_text c))),
       insn_text_len := of_nat (length (aa_text c)),
       insn_body := Some (strdup (c_str (aa_body c))),
       insn_body_len := of_nat (length (aa_body c))\<rparr>"

record ArbitraryPcodeEmitter =
  pcode_ops :: "PcodeOp list"

text \<open>The three assignments that fill one \<^verbatim>\<open>VarnodeDesc\<close>: \<^verbatim>\<open>offset\<close>, \<^verbatim>\<open>size\<close> (a
  \<^verbatim>\<open>uint4\<close> widened to \<^verbatim>\<open>uint64_t\<close>) and the \<^verbatim>\<open>strncpy\<close> of the space name with the
  size of the field, 16.\<close>

definition copy_varnode :: "VarnodeDesc \<Rightarrow> VarnodeData \<Rightarrow> VarnodeDesc" where
  "copy_varnode d vn =
     d\<lparr>offset := vn_offset vn,
       size_vd := ucast (vn_size vn),
       space := strncpy (space d) (c_str (vn_space vn)) 16\<rparr>"

text \<open>\<^verbatim>\<open>ArbitraryPcodeEmitter::dump\<close>: one record appended per callback. \<^verbatim>\<open>input_len\<close> is an
  \<^verbatim>\<open>int4\<close>; the loop \<^verbatim>\<open>for (int i = 0; i < input_len; i++)\<close> visits the first
  \<open>nat (sint input_len)\<close> inputs.\<close>

definition pcode_dump :: "allocator \<Rightarrow> ArbitraryPcodeEmitter \<Rightarrow> pcode_args \<Rightarrow> ArbitraryPcodeEmitter" where
  "pcode_dump H pe c =
     (let input_len = (of_nat (length (pa_inputs c)) :: i32);
          input_descs = map (copy_varnode (new_VarnodeDesc H))
                          (take (nat (sint input_len)) (pa_inputs c));
          op = \<lparr>opcode = pa_opcode c,
                output_vd = (case pa_output c of
                            Some vn \<Rightarrow> Some (copy_varnode (new_VarnodeDesc H) vn)
                          | None \<Rightarrow> None),
                input_len = scast input_len,
                inputVarnodes = input_descs\<rparr>
      in pe\<lparr>pcode_ops := pcode_ops pe @ [op]\<rparr>)"

section \<open>The session manager: \<^verbatim>\<open>ArbitraryManager\<close>\<close>

record 'e ArbitraryManager =
  loader :: ArbitraryLoader
  pcode_emitter :: ArbitraryPcodeEmitter
  asm_emitter :: ArbitraryAsmEmitter
  sleigh :: 'e
  current_translate_address :: u64

text \<open>The constructor: a default-constructed loader, an empty operation vector, the
  cursor's initialiser 0. The fields of the assembly collector have no initialiser; their
  indeterminate contents are the first argument, the engine's initial state the second.\<close>

definition ArbitraryManager_new :: "ArbitraryAsmEmitter \<Rightarrow> 'e \<Rightarrow> 'e ArbitraryManager" where
  "ArbitraryManager_new uninit s0 =
     \<lparr>loader = ArbitraryLoader_new,
      pcode_emitter = \<lparr>pcode_ops = []\<rparr>,
      asm_emitter = uninit,
      sleigh = s0,
      current_translate_address = 0\<rparr>"

definition load_data :: "'e ArbitraryManager \<Rightarrow> u64 \<Rightarrow> u64 \<Rightarrow> u8 list \<Rightarrow> 'e ArbitraryManager" where
  "load_data M addr sz bytes = M\<lparr>loader := load_region (loader M) addr sz bytes\<rparr>"

text \<open>\<^verbatim>\<open>to_insn_desc\<close>: a new \<^verbatim>\<open>InsnDesc\<close>, seven of its eight fields assigned.\<close>

definition to_insn_desc :: "allocator \<Rightarrow> 'e ArbitraryManager \<Rightarrow> InsnDesc" where
  "to_insn_desc H M =
     (new_InsnDesc H)\<lparr>
        op_count := of_nat (length (pcode_ops (pcode_emitter M))),
        ops := pcode_ops (pcode_emitter M),
        size_id := insn_size (asm_emitter M),
        insn := insn_text (asm_emitter M),
        insn_len := insn_text_len (asm_emitter M),
        body := insn_body (asm_emitter M),
        body_len := insn_body_len (asm_emitter M)\<rparr>"

text \<open>The two engine calls of a decode, with their effect on the session: the callbacks
  run on the collector, the engine moves to its next state, and the outcome is a length
  or an exception.\<close>

definition call_printAssembly ::
  "'e engine \<Rightarrow> 'e ArbitraryManager \<Rightarrow> u64 \<Rightarrow> (engine_error + i32) \<times> 'e ArbitraryManager" where
  "call_printAssembly E M a =
     (case printAssembly E (sleigh M) (loader M) a of
        ((calls, r), s) \<Rightarrow>
          (r, M\<lparr>asm_emitter := foldl asm_dump (asm_emitter M) calls, sleigh := s\<rparr>))"

definition call_oneInstruction ::
  "'e engine \<Rightarrow> allocator \<Rightarrow> 'e ArbitraryManager \<Rightarrow> u64 \<Rightarrow>
     (engine_error + i32) \<times> 'e ArbitraryManager" where
  "call_oneInstruction E H M a =
     (case oneInstruction E (sleigh M) (loader M) a of
        ((calls, r), s) \<Rightarrow>
          (r, M\<lparr>pcode_emitter := foldl (pcode_dump H) (pcode_emitter M) calls, sleigh := s\<rparr>))"

text \<open>The address at which the next \<^verbatim>\<open>translate_next\<close> calls the engine: the cursor, or
  \<^verbatim>\<open>loader.base()\<close> when the cursor is 0 (the first two statements of the function).\<close>

definition next_address :: "'e ArbitraryManager \<Rightarrow> u64" where
  "next_address M =
     (if current_translate_address M = 0 then base (loader M)
      else current_translate_address M)"

text \<open>\<^verbatim>\<open>translate_next\<close>. Nothing is caught: an exception of the engine leaves the function
  (\<open>Inl\<close>) with the session as it is at the throw. \<^verbatim>\<open>insn_length\<close> is an \<^verbatim>\<open>int32_t\<close>,
  converted to \<^verbatim>\<open>uint64_t\<close> by sign extension where it is stored or added.\<close>

definition translate_next ::
  "'e engine \<Rightarrow> allocator \<Rightarrow> 'e ArbitraryManager \<Rightarrow>
     (engine_error + InsnDesc) \<times> 'e ArbitraryManager" where
  "translate_next E H M =
     (let M1 = (if current_translate_address M = 0
                then M\<lparr>current_translate_address := base (loader M)\<rparr> else M);
          a = current_translate_address M1
      in case call_printAssembly E M1 a of
           (Inl e, M2) \<Rightarrow> (Inl e, M2)
         | (Inr l, M2) \<Rightarrow>
             (case call_oneInstruction E H M2 a of
                (Inl e, M3) \<Rightarrow> (Inl e, M3)
              | (Inr insn_length, M3) \<Rightarrow>
                  (let M4 = M3\<lparr>asm_emitter := (asm_emitter M3)\<lparr>insn_size := scast insn_length\<rparr>\<rparr>;
                       M5 = M4\<lparr>current_translate_address :=
                                  current_translate_address M4 + scast insn_length\<rparr>;
                       out = to_insn_desc H M5;
                       M6 = M5\<lparr>pcode_emitter := (pcode_emitter M5)\<lparr>pcode_ops := []\<rparr>,
                               asm_emitter := clear (asm_emitter M5)\<rparr>
                   in (Inr out, M6))))"

text \<open>\<^verbatim>\<open>lift_insn\<close>: the same two calls inside \<^verbatim>\<open>try\<close>; the handler takes \<^verbatim>\<open>BadDataError\<close>
  and sets the result to \<^verbatim>\<open>nullptr\<close> (\<open>None\<close>), any other exception leaves the function.\<close>

definition lift_insn ::
  "'e engine \<Rightarrow> allocator \<Rightarrow> 'e ArbitraryManager \<Rightarrow> u64 \<Rightarrow>
     (engine_error + InsnDesc option) \<times> 'e ArbitraryManager" where
  "lift_insn E H M addr =
     (case call_printAssembly E M addr of
        (Inl e, M2) \<Rightarrow> (if catch_BadDataError e then (Inr None, M2) else (Inl e, M2))
      | (Inr l, M2) \<Rightarrow>
          (case call_oneInstruction E H M2 addr of
             (Inl e, M3) \<Rightarrow> (if catch_BadDataError e then (Inr None, M3) else (Inl e, M3))
           | (Inr insn_length, M3) \<Rightarrow>
               (let M4 = M3\<lparr>asm_emitter := (asm_emitter M3)\<lparr>insn_size := scast insn_length\<rparr>\<rparr>;
                    out = (to_insn_desc H M4)\<lparr>address_id := addr\<rparr>;
                    M5 = M4\<lparr>pcode_emitter := (pcode_emitter M4)\<lparr>pcode_ops := []\<rparr>,
                            asm_emitter := clear (asm_emitter M4)\<rparr>
                in (Inr (Some out), M5))))"

text \<open>\<^verbatim>\<open>context_var_set_default\<close> forwards to the engine's context; the exported
  \<^verbatim>\<open>arbitrary_manager_context_var_set_default\<close> wraps it in \<^verbatim>\<open>try\<close> with a handler for
  \<^verbatim>\<open>LowlevelError\<close> that writes to \<^verbatim>\<open>std::cout\<close>. The third component is the text on
  the stream; the function's own return type is \<^verbatim>\<open>void\<close>.\<close>

definition context_var_set_default ::
  "'e engine \<Rightarrow> 'e ArbitraryManager \<Rightarrow> string \<Rightarrow> u32 \<Rightarrow>
     (engine_error + unit) \<times> 'e ArbitraryManager" where
  "context_var_set_default E M key v =
     (case setVariableDefault E (sleigh M) key v of
        (None, s) \<Rightarrow> (Inr (), M\<lparr>sleigh := s\<rparr>)
      | (Some e, s) \<Rightarrow> (Inl e, M\<lparr>sleigh := s\<rparr>))"

definition arbitrary_manager_context_var_set_default ::
  "'e engine \<Rightarrow> 'e ArbitraryManager \<Rightarrow> string \<Rightarrow> u32 \<Rightarrow> string \<Rightarrow>
     (engine_error + unit) \<times> 'e ArbitraryManager \<times> string" where
  "arbitrary_manager_context_var_set_default E mgr key v cout =
     (case context_var_set_default E mgr key v of
        (Inr u, mgr') \<Rightarrow> (Inr (), mgr', cout)
      | (Inl err, mgr') \<Rightarrow>
          (if catch_LowlevelError err
           then (Inr (), mgr', cout @ ''[libsla ERROR]: '' @ explain err @ [CHR 0x0A])
           else (Inl err, mgr', cout)))"

text \<open>\<^verbatim>\<open>get_all_registers\<close>: the entries of the engine's register map in iteration order,
  each copied into a new \<^verbatim>\<open>RegisterDesc\<close>: the name with \<^verbatim>\<open>strncpy(.., 64)\<close>, the varnode
  as above.\<close>

definition copy_register :: "RegisterDesc \<Rightarrow> VarnodeData \<times> string \<Rightarrow> RegisterDesc" where
  "copy_register reg entry =
     (case entry of
        (vn, nm) \<Rightarrow> reg\<lparr>name := strncpy (name reg) (c_str nm) 64,
                        varnode := copy_varnode (varnode reg) vn\<rparr>)"

definition get_all_registers :: "'e engine \<Rightarrow> allocator \<Rightarrow> 'e ArbitraryManager \<Rightarrow> RegisterList" where
  "get_all_registers E H M =
     (let register_list = getAllRegisters E (sleigh M)
      in \<lparr>register_count = of_nat (length register_list),
          registers = map (copy_register (new_RegisterDesc H)) register_list\<rparr>)"

section \<open>The object-file accessors of \<^verbatim>\<open>local-bfd.h\<close>\<close>

text \<open>The part of the library's \<^verbatim>\<open>struct bfd\<close> the four accessors read. \<open>'p\<close> is the type
  of a \<^verbatim>\<open>struct bfd_section *\<close>. \<^verbatim>\<open>bfd_count_sections\<close> returns the \<^verbatim>\<open>unsigned int\<close>
  \<^verbatim>\<open>section_count\<close>, \<^verbatim>\<open>bfd_get_start_address\<close> the \<^verbatim>\<open>bfd_vma\<close> \<^verbatim>\<open>start_address\<close>;
  both belong to the library and are parameters of the accessors.\<close>

record 'p bfd =
  section_count :: u32
  start_address :: u64
  sections :: 'p
  section_last :: 'p

definition get_section_count :: "('p bfd \<Rightarrow> u32) \<Rightarrow> 'p bfd \<Rightarrow> u64" where
  "get_section_count bfd_count_sections abfd = ucast (bfd_count_sections abfd)"

definition get_start_address :: "('p bfd \<Rightarrow> u64) \<Rightarrow> 'p bfd \<Rightarrow> u64" where
  "get_start_address bfd_get_start_address abfd = ucast (bfd_get_start_address abfd)"

definition get_sections :: "'p bfd \<Rightarrow> 'p" where
  "get_sections abfd = sections abfd"

definition get_last_section :: "'p bfd \<Rightarrow> 'p" where
  "get_last_section abfd = section_last abfd"

section \<open>Specification-side notions and example sessions\<close>


text \<open>What the specification asks of the byte \<open>b\<close> stored for address \<open>a\<close>: when some loaded
  region owns \<open>a\<close>, \<open>b\<close> is the byte of an owning region at the offset of \<open>a\<close> in it;
  when none does, \<open>b\<close> is zero.\<close>

definition filled :: "ArbitraryLoader \<Rightarrow> u64 \<Rightarrow> u8 \<Rightarrow> bool" where
  "filled L a b \<longleftrightarrow>
     (if \<exists>r \<in> set (regions L). owns r a
      then \<exists>r \<in> set (regions L). owns r a \<and> b = data r ! unat (a - base_address r)
      else b = 0)"

text \<open>The request \<open>[addr, addr + sz)\<close> lies entirely outside the tracked range: it ends at or
  below the tracked minimum, or starts above the tracked maximum.\<close>

definition outside_tracked_range :: "ArbitraryLoader \<Rightarrow> u64 \<Rightarrow> i32 \<Rightarrow> bool" where
  "outside_tracked_range L addr sz \<longleftrightarrow>
     unat addr + nat (sint sz) \<le> unat (min_addr L) \<or> unat (max_addr L) < unat addr"

text \<open>The exported descriptors in the words of the specification: the name is copied
  into its field truncated to the field's capacity (16 bytes for a space name, 64 for a
  register name) and padded with NULs, offset and size are copied.\<close>

definition exported_varnode :: "VarnodeData \<Rightarrow> VarnodeDesc" where
  "exported_varnode vn =
     \<lparr>space = take 16 (c_str (vn_space vn)) @ replicate (16 - length (c_str (vn_space vn))) NUL,
      offset = vn_offset vn,
      size_vd = ucast (vn_size vn)\<rparr>"

definition exported_register :: "VarnodeData \<times> string \<Rightarrow> RegisterDesc" where
  "exported_register entry =
     \<lparr>name = take 64 (c_str (snd entry)) @ replicate (64 - length (c_str (snd entry))) NUL,
      varnode = exported_varnode (fst entry)\<rparr>"

text \<open>The region of the specification's examples; two regions that overlap, the one
  registered second starting lower; and a region ending one byte below the top of the
  64-bit address space.\<close>

definition single_region_loader :: ArbitraryLoader where
  "single_region_loader = load_region ArbitraryLoader_new 0x1000 4 [0xAA, 0xBB, 0xCC, 0xDD]"


definition top_loader :: ArbitraryLoader where
  "top_loader = load_region ArbitraryLoader_new 0xFFFFFFFFFFFFFFFC 3 [0x01, 0x02, 0x03]"

text \<open>An engine for a fixed-width instruction set: every instruction is four bytes long.
  The bytes at \<open>0x2000\<close> have no encoding; the instruction at \<open>0x3000\<close> disassembles, but
  producing its microcode fails with \<^verbatim>\<open>BadDataError\<close> (as for an instruction whose delay
  slot holds no valid encoding). The state of the engine is the list of the addresses it
  was asked to disassemble. Only \<open>ISA_MODE\<close> is a context variable. Of its two registers
  the second has a name of 69 characters in a space whose name has 25.\<close>

definition example_engine :: "u64 list engine" where
  "example_engine =
     \<lparr>printAssembly = (\<lambda>s L a.
        if a = 0x2000 then (([], Inl (BadDataError ''Unable to resolve constructor'')), s @ [a])
        else (([\<lparr>aa_addr = a, aa_text = ''jal'', aa_body = ''0x40''\<rparr>], Inr 4), s @ [a])),
      oneInstruction = (\<lambda>s L a.
        if a = 0x3000 then (([], Inl (BadDataError ''Unable to resolve constructor'')), s)
        else (([\<lparr>pa_opcode = 1,
                  pa_output = Some \<lparr>vn_space = ''register'', vn_offset = 0x10, vn_size = 4\<rparr>,
                  pa_inputs = [\<lparr>vn_space = ''const'', vn_offset = 0x40, vn_size = 4\<rparr>]\<rparr>],
               Inr 4), s)),
      setVariableDefault = (\<lambda>s key v.
        if key = ''ISA_MODE'' then (None, s)
        else (Some (LowlevelError (''Non-existent context variable: '' @ key)), s)),
      getAllRegisters = (\<lambda>s.
        [(\<lparr>vn_space = ''register'', vn_offset = 0, vn_size = 4\<rparr>, ''zero''),
         (\<lparr>vn_space = ''a_long_address_space_name'', vn_offset = 0x40, vn_size = 8\<rparr>,
          ''a_register_name_that_is_longer_than_the_sixty_four_bytes_of_its_field'')])\<rparr>"

text \<open>Storage as an allocator may hand it out: every byte \<open>0xCD\<close>.\<close>

definition example_allocator :: allocator where
  "example_allocator =
     \<lparr>new_VarnodeDesc = \<lparr>space = replicate 16 (CHR 0xCD), offset = 0xCDCD, size_vd = 0xCDCD\<rparr>,
      new_InsnDesc = \<lparr>op_count = 0xCDCD, ops = [], size_id = 0xCDCD, address_id = 0xCDCD,
                      insn = None, insn_len = 0xCDCD, body = None, body_len = 0xCDCD\<rparr>,
      new_RegisterDesc = \<lparr>name = replicate 64 (CHR 0xCD),
         varnode = \<lparr>space = replicate 16 (CHR 0xCD), offset = 0xCDCD, size_vd = 0xCDCD\<rparr>\<rparr>\<rparr>"

text \<open>A session on a loader before its first decode: empty collectors, cursor 0.\<close>

definition example_session :: "ArbitraryLoader \<Rightarrow> u64 list ArbitraryManager" where
  "example_session L =
     \<lparr>loader = L,
      pcode_emitter = \<lparr>pcode_ops = []\<rparr>,
      asm_emitter = \<lparr>insn_size = 0, address = 0, insn_text = None, insn_text_len = 0,
                      insn_body = None, insn_body_len = 0\<rparr>,
      sleigh = [],
      current_translate_address = 0\<rparr>"

definition example_insn_session :: "u64 list ArbitraryManager" where
  "example_insn_session = example_session single_region_loader"

definition top_session :: "u64 list ArbitraryManager" where
  "top_session = example_session top_loader"

text \<open>The session on \<open>top_loader\<close> after one and after two calls of \<^verbatim>\<open>translate_next\<close>.\<close>

definition top_session_1 :: "u64 list ArbitraryManager" where
  "top_session_1 = snd (translate_next example_engine example_allocator top_session)"

definition top_session_2 :: "u64 list ArbitraryManager" where
  "top_session_2 = snd (translate_next example_engine example_allocator top_session_1)"

section \<open>Properties of the memory image adapter\<close>

subsection \<open>Region lookup\<close>




lemma single_region_loader_eq:
  "single_region_loader = \<lparr>max_addr = 0x1004, min_addr = 0x1000,
      regions = [\<lparr>base_address = 0x1000, size_md = 4, data = [0xAA, 0xBB, 0xCC, 0xDD]\<rparr>]\<rparr>"
  by (simp add: single_region_loader_def load_region_def ArbitraryLoader_new_def Let_def)


lemma top_loader_eq:
  "top_loader = \<lparr>max_addr = 0xFFFFFFFFFFFFFFFF, min_addr = 0xFFFFFFFFFFFFFFFC,
      regions = [\<lparr>base_address = 0xFFFFFFFFFFFFFFFC, size_md = 3, data = [0x01, 0x02, 0x03]\<rparr>]\<rparr>"
  by (simp add: top_loader_def load_region_def ArbitraryLoader_new_def Let_def)



subsection \<open>The fill loop\<close>












text \<open>Where exactly one region owns an address, \<open>filled\<close> names that region's byte.\<close>

lemma filled_unique_owner:
  assumes "filled L a b" and "r \<in> set (regions L)" and "owns r a"
    and "\<forall>r' \<in> set (regions L). owns r' a \<longrightarrow> r' = r"
  shows "b = data r ! unat (a - base_address r)"
proof -
  from assms(2,3) have ex: "\<exists>r \<in> set (regions L). owns r a" by blast
  with assms(1) have "\<exists>r \<in> set (regions L). owns r a \<and> b = data r ! unat (a - base_address r)"
    by (simp only: filled_def if_True)
  then obtain r' where r': "r' \<in> set (regions L)" "owns r' a"
    and b: "b = data r' ! unat (a - base_address r')"
    by blast
  from r' assms(4) have "r' = r" by blast
  with b show ?thesis by simp
qed

text \<open>Claim C2, as amended. A fill request whose start address is strictly greater than
  the tracked maximum address returns at once with the buffer unchanged. (The claim as
  stated also covers requests entirely below the tracked minimum; see the counterexample
  below.)\<close>

theorem loadFill_rejects_above_max:
  "max_addr L < addr \<Longrightarrow> loadFill L ptr sz addr = Inr ptr"
  by (simp add: loadFill_def Let_def)

theorem loadFill_rejects_above_max_witness:
  "max_addr single_region_loader < 0x1005 \<and>
   loadFill single_region_loader [0xFF, 0xFF, 0xFF, 0xFF] 4 0x1005 = Inr [0xFF, 0xFF, 0xFF, 0xFF]"
  using loadFill_rejects_above_max [of single_region_loader "0x1005" "[0xFF, 0xFF, 0xFF, 0xFF]" 4]
  by (simp add: single_region_loader_eq)

text \<open>Claim C2 as stated fails below the minimum: the request \<open>[0x0800, 4)\<close> lies entirely
  below the only region, \<^verbatim>\<open>min_addr\<close> is never read, and the pre-seeded buffer is
  overwritten with zeros.\<close>

theorem loadFill_below_min_counterexample:
  "outside_tracked_range single_region_loader 0x0800 4 \<and>
   loadFill single_region_loader [0xFF, 0xFF, 0xFF, 0xFF] 4 0x0800 = Inr [0, 0, 0, 0] \<and>
   loadFill single_region_loader [0xFF, 0xFF, 0xFF, 0xFF] 4 0x0800 \<noteq> Inr [0xFF, 0xFF, 0xFF, 0xFF]"
  by (simp add: outside_tracked_range_def single_region_loader_eq loadFill_def fill_loop.simps
      copy_region.simps put_byte_def region_from_address_def Let_def word_sless_alt)

text \<open>The tracked minimum is not consulted: \<^verbatim>\<open>loadFill\<close> gives the same result whatever
  \<^verbatim>\<open>min_addr\<close> holds.\<close>

lemma fill_loop_min_addr:
  "fill_loop (L\<lparr>min_addr := m\<rparr>) st = fill_loop L st"
proof (induction L st rule: fill_loop.induct)
  case (1 L st)
  have r: "region_from_address (L\<lparr>min_addr := m\<rparr>) a = region_from_address L a" for a
    by (simp add: region_from_address_def)
  show ?case
  proof (cases "0 <s bytes_remaining st")
    case False
    then show ?thesis
      by (simp add: fill_loop.simps [of L st] fill_loop.simps [of "L\<lparr>min_addr := m\<rparr>" st])
  next
    case pos: True
    show ?thesis
    proof (cases "region_from_address L (search_address st)")
      case None
      show ?thesis
      proof (cases "put_byte 0 st")
        case (Inl f)
        with pos None show ?thesis
          by (simp add: fill_loop.simps [of L st] fill_loop.simps [of "L\<lparr>min_addr := m\<rparr>" st] r)
      next
        case (Inr st')
        from "1.IH"(1) [OF pos None Inr] pos None Inr show ?thesis
          by (simp add: fill_loop.simps [of L st] fill_loop.simps [of "L\<lparr>min_addr := m\<rparr>" st] r)
      qed
    next
      case (Some region)
      show ?thesis
      proof (cases "copy_region region (search_address st - base_address region) st")
        case (Inl f)
        with pos Some show ?thesis
          by (simp add: fill_loop.simps [of L st] fill_loop.simps [of "L\<lparr>min_addr := m\<rparr>" st] r)
      next
        case (Inr st')
        from "1.IH"(2) [OF pos Some refl Inr] pos Some Inr show ?thesis
          by (simp add: fill_loop.simps [of L st] fill_loop.simps [of "L\<lparr>min_addr := m\<rparr>" st] r)
      qed
    qed
  qed
qed

lemma loadFill_min_addr_not_consulted:
  "loadFill (L\<lparr>min_addr := m\<rparr>) ptr sz addr = loadFill L ptr sz addr"
  by (simp add: loadFill_def Let_def fill_loop_min_addr)

section \<open>Properties of the session manager\<close>

subsection \<open>Arithmetic and \<^verbatim>\<open>base()\<close>\<close>

lemma unat_scast_pos:
  assumes "0 <s (len::i32)"
  shows "unat (scast len :: u64) = nat (sint len)"
proof -
  from assms have pos: "0 < sint len" by (simp add: word_sless_alt)
  have up: "sint len < 2 ^ 31" using sint_lt [of len] by simp
  have "uint (word_of_int (sint len) :: u64) = sint len mod 2 ^ LENGTH(64)"
    by (rule uint_word_of_int)
  moreover have "sint len mod 2 ^ LENGTH(64) = sint len"
  proof (rule mod_pos_pos_trivial)
    show "0 \<le> sint len" using pos by simp
    have "(2::int) ^ 31 \<le> 2 ^ LENGTH(64)" by simp
    with up show "sint len < 2 ^ LENGTH(64)" by linarith
  qed
  ultimately have "uint (scast len :: u64) = sint len" by (simp only: scast_eq)
  then show ?thesis by (simp only: unat_eq_nat_uint)
qed

lemma unat_ucast_u32_u64: "unat (ucast (w :: u32) :: u64) = unat w"
proof -
  have "unat w < 2 ^ 32" using unsigned_less [of w] by simp
  also have "(2::nat) ^ 32 \<le> 2 ^ 64" by simp
  finally have "take_bit 64 (unat w) = unat w" by (rule take_bit_nat_eq_self)
  then show ?thesis by (simp add: unsigned_ucast_eq)
qed

lemma base_loop_le_start: "base_loop rs b \<le> b"
proof (induction rs arbitrary: b)
  case Nil
  show ?case by simp
next
  case (Cons r rs)
  show ?case
  proof (cases "base_address r < b")
    case True
    have "base_loop rs (base_address r) \<le> base_address r" by (rule Cons.IH)
    with True show ?thesis by (simp add: Let_def)
  next
    case False
    with Cons.IH [of b] show ?thesis by (simp add: Let_def)
  qed
qed

lemma base_loop_lower: "r \<in> set rs \<Longrightarrow> base_loop rs b \<le> base_address r"
proof (induction rs arbitrary: b)
  case Nil
  then show ?case by simp
next
  case (Cons x rs)
  show ?case
  proof (cases "r = x")
    case True
    show ?thesis
    proof (cases "base_address x < b")
      case lt: True
      from base_loop_le_start [of rs "base_address x"] lt True show ?thesis
        by (simp add: Let_def)
    next
      case ge: False
      from ge have "b \<le> base_address x" by simp
      with base_loop_le_start [of rs b] have "base_loop rs b \<le> base_address x"
        by (rule order_trans)
      with ge True show ?thesis by (simp add: Let_def)
    qed
  next
    case False
    with Cons.prems have "r \<in> set rs" by simp
    from Cons.IH [OF this] show ?thesis by (simp add: Let_def)
  qed
qed

lemma base_loop_attained: "base_loop rs b = b \<or> base_loop rs b \<in> base_address ` set rs"
proof (induction rs arbitrary: b)
  case Nil
  show ?case by simp
next
  case (Cons x rs)
  show ?case
  proof (cases "base_address x < b")
    case True
    with Cons.IH [of "base_address x"] show ?thesis by (auto simp: Let_def)
  next
    case False
    with Cons.IH [of b] show ?thesis by (auto simp: Let_def)
  qed
qed

lemma base_lower: "r \<in> set (regions L) \<Longrightarrow> base L \<le> base_address r"
  by (simp add: base_def base_loop_lower)

lemma base_attained:
  assumes "regions L \<noteq> []"
  shows "base L \<in> base_address ` set (regions L)"
proof -
  from base_loop_attained [of "regions L" "0xffffffffffffffff"]
  show ?thesis
  proof
    assume top: "base_loop (regions L) 0xffffffffffffffff = 0xffffffffffffffff"
    from assms obtain r where r: "r \<in> set (regions L)" by (cases "regions L") auto
    then have "base L \<le> base_address r" by (rule base_lower)
    with top have "(0xffffffffffffffff :: u64) \<le> base_address r" by (simp add: base_def)
    moreover have "base_address r \<le> (0xffffffffffffffff :: u64)"
    proof -
      have "unat (base_address r) < 2 ^ 64" using unsigned_less [of "base_address r"] by simp
      then show ?thesis by (simp add: word_le_nat_alt)
    qed
    ultimately have "base_address r = 0xffffffffffffffff" by simp
    with r top show ?thesis by (force simp: base_def)
  next
    assume "base_loop (regions L) 0xffffffffffffffff \<in> base_address ` set (regions L)"
    then show ?thesis by (simp add: base_def)
  qed
qed

subsection \<open>The outcomes of a decode\<close>

lemma translate_next_success:
  assumes pa: "printAssembly E (sleigh M) (loader M) (next_address M) = ((acalls, Inr l0), s1)"
    and oi: "oneInstruction E s1 (loader M) (next_address M) = ((pcalls, Inr len), s2)"
  shows "translate_next E H M =
    (Inr ((new_InsnDesc H)\<lparr>
        op_count := of_nat (length (pcode_ops (foldl (pcode_dump H) (pcode_emitter M) pcalls))),
        ops := pcode_ops (foldl (pcode_dump H) (pcode_emitter M) pcalls),
        size_id := scast len,
        insn := insn_text (foldl asm_dump (asm_emitter M) acalls),
        insn_len := insn_text_len (foldl asm_dump (asm_emitter M) acalls),
        body := insn_body (foldl asm_dump (asm_emitter M) acalls),
        body_len := insn_body_len (foldl asm_dump (asm_emitter M) acalls)\<rparr>),
     M\<lparr>current_translate_address := next_address M + scast len,
       sleigh := s2,
       pcode_emitter := (foldl (pcode_dump H) (pcode_emitter M) pcalls)\<lparr>pcode_ops := []\<rparr>,
       asm_emitter := clear ((foldl asm_dump (asm_emitter M) acalls)\<lparr>insn_size := scast len\<rparr>)\<rparr>)"
proof (cases "current_translate_address M = 0")
  case True
  with assms show ?thesis
    by (simp add: translate_next_def next_address_def call_printAssembly_def
        call_oneInstruction_def to_insn_desc_def Let_def)
next
  case False
  with assms show ?thesis
    by (simp add: translate_next_def next_address_def call_printAssembly_def
        call_oneInstruction_def to_insn_desc_def Let_def)
qed

lemma lift_insn_success:
  assumes pa: "printAssembly E (sleigh M) (loader M) addr = ((acalls, Inr l0), s1)"
    and oi: "oneInstruction E s1 (loader M) addr = ((pcalls, Inr len), s2)"
  shows "lift_insn E H M addr =
    (Inr (Some ((new_InsnDesc H)\<lparr>
        op_count := of_nat (length (pcode_ops (foldl (pcode_dump H) (pcode_emitter M) pcalls))),
        ops := pcode_ops (foldl (pcode_dump H) (pcode_emitter M) pcalls),
        size_id := scast len,
        insn := insn_text (foldl asm_dump (asm_emitter M) acalls),
        insn_len := insn_text_len (foldl asm_dump (asm_emitter M) acalls),
        body := insn_body (foldl asm_dump (asm_emitter M) acalls),
        body_len := insn_body_len (foldl asm_dump (asm_emitter M) acalls),
        address_id := addr\<rparr>)),
     M\<lparr>sleigh := s2,
       pcode_emitter := (foldl (pcode_dump H) (pcode_emitter M) pcalls)\<lparr>pcode_ops := []\<rparr>,
       asm_emitter := clear ((foldl asm_dump (asm_emitter M) acalls)\<lparr>insn_size := scast len\<rparr>)\<rparr>)"
  using assms
  by (simp add: lift_insn_def call_printAssembly_def call_oneInstruction_def
      to_insn_desc_def Let_def)

lemma lift_insn_printAssembly_throws:
  assumes pa: "printAssembly E (sleigh M) (loader M) addr = ((acalls, Inl e), s1)"
  shows "lift_insn E H M addr =
    (if catch_BadDataError e then Inr None else Inl e,
     M\<lparr>asm_emitter := foldl asm_dump (asm_emitter M) acalls, sleigh := s1\<rparr>)"
  using assms by (simp add: lift_insn_def call_printAssembly_def)

lemma lift_insn_oneInstruction_throws:
  assumes pa: "printAssembly E (sleigh M) (loader M) addr = ((acalls, Inr l0), s1)"
    and oi: "oneInstruction E s1 (loader M) addr = ((pcalls, Inl e), s2)"
  shows "lift_insn E H M addr =
    (if catch_BadDataError e then Inr None else Inl e,
     M\<lparr>asm_emitter := foldl asm_dump (asm_emitter M) acalls, sleigh := s2,
       pcode_emitter := foldl (pcode_dump H) (pcode_emitter M) pcalls\<rparr>)"
  using assms by (simp add: lift_insn_def call_printAssembly_def call_oneInstruction_def)

lemma lift_insn_cases:
  obtains (print_throws) acalls e s1 where
      "printAssembly E (sleigh M) (loader M) addr = ((acalls, Inl e), s1)"
    | (pcode_throws) acalls l0 s1 pcalls e s2 where
      "printAssembly E (sleigh M) (loader M) addr = ((acalls, Inr l0), s1)"
      "oneInstruction E s1 (loader M) addr = ((pcalls, Inl e), s2)"
    | (success) acalls l0 s1 pcalls len s2 where
      "printAssembly E (sleigh M) (loader M) addr = ((acalls, Inr l0), s1)"
      "oneInstruction E s1 (loader M) addr = ((pcalls, Inr len), s2)"
proof -
  obtain acalls r1 s1 where pa: "printAssembly E (sleigh M) (loader M) addr = ((acalls, r1), s1)"
    by (metis surj_pair)
  show ?thesis
  proof (cases r1)
    case (Inl e)
    with pa print_throws show ?thesis by blast
  next
    case (Inr l0)
    obtain pcalls r2 s2 where oi: "oneInstruction E s1 (loader M) addr = ((pcalls, r2), s2)"
      by (metis surj_pair)
    show ?thesis
    proof (cases r2)
      case (Inl e)
      with pa oi Inr pcode_throws show ?thesis by blast
    next
      case r2: (Inr len)
      with pa oi Inr success show ?thesis by blast
    qed
  qed
qed

lemma next_address_example: "next_address example_insn_session = 0x1000"
  by (simp add: next_address_def example_insn_session_def example_session_def base_def
      single_region_loader_eq)

lemma next_address_top_session: "next_address top_session = 0xFFFFFFFFFFFFFFFC"
  by (simp add: next_address_def top_session_def example_session_def base_def top_loader_eq)

lemma top_session_first:
  "translate_next example_engine example_allocator top_session =
     (Inr ((new_InsnDesc example_allocator)\<lparr>
        op_count := 1,
        ops := pcode_ops (pcode_dump example_allocator \<lparr>pcode_ops = []\<rparr>
                 \<lparr>pa_opcode = 1,
                  pa_output = Some \<lparr>vn_space = ''register'', vn_offset = 0x10, vn_size = 4\<rparr>,
                  pa_inputs = [\<lparr>vn_space = ''const'', vn_offset = 0x40, vn_size = 4\<rparr>]\<rparr>),
        size_id := 4, insn := Some ''jal'', insn_len := 3,
        body := Some ''0x40'', body_len := 4\<rparr>),
      top_session\<lparr>sleigh := [0xFFFFFFFFFFFFFFFC]\<rparr>)"
proof -
  have pa: "printAssembly example_engine (sleigh top_session) (loader top_session)
      (next_address top_session) =
      (([\<lparr>aa_addr = 0xFFFFFFFFFFFFFFFC, aa_text = ''jal'', aa_body = ''0x40''\<rparr>], Inr 4),
       [0xFFFFFFFFFFFFFFFC])"
    by (simp add: next_address_top_session) (simp add: example_engine_def top_session_def example_session_def)
  have oi: "oneInstruction example_engine [0xFFFFFFFFFFFFFFFC] (loader top_session)
      (next_address top_session) =
      (([\<lparr>pa_opcode = 1,
          pa_output = Some \<lparr>vn_space = ''register'', vn_offset = 0x10, vn_size = 4\<rparr>,
          pa_inputs = [\<lparr>vn_space = ''const'', vn_offset = 0x40, vn_size = 4\<rparr>]\<rparr>], Inr 4),
       [0xFFFFFFFFFFFFFFFC])"
    by (simp add: next_address_top_session) (simp add: example_engine_def)
  show ?thesis
    unfolding translate_next_success [OF pa oi, of example_allocator]
    by (simp add: next_address_top_session)
       (simp add: top_session_def example_session_def asm_dump_def clear_def pcode_dump_def
          c_str_def strdup_def NUL_def Let_def)
qed

lemma top_session_1_eq: "top_session_1 = top_session\<lparr>sleigh := [0xFFFFFFFFFFFFFFFC]\<rparr>"
  by (simp add: top_session_1_def top_session_first)

text \<open>A session that has only been constructed and loaded has cursor 0: its next
  \<^verbatim>\<open>translate_next\<close> is the first.\<close>

lemma cursor_before_first_decode:
  "current_translate_address (ArbitraryManager_new uninit s0) = 0"
  "current_translate_address (load_data M a sz bytes) = current_translate_address M"
  by (simp_all add: ArbitraryManager_new_def load_data_def)

text \<open>Claim C3, as amended. \<^verbatim>\<open>translate_next\<close> decodes at \<^verbatim>\<open>loader.base()\<close>, the least base
  address of the loaded regions, whenever the cursor is 0 (so on its first call), and at
  the cursor otherwise. When the engine decodes there, the call returns a descriptor whose
  size is the decoded length, leaves the engine in the state those two calls produced, and
  sets the cursor to the decode address plus that length, modulo \<open>2^64\<close>. The next call decodes at that sum unless the sum is 0; when the length is
  positive and the sum does not pass \<open>2^64 - 1\<close>, the second address is greater than the
  first by exactly the length.\<close>

theorem translate_next_advances:
  assumes pa: "printAssembly E (sleigh M) (loader M) (next_address M) = ((acalls, Inr l0), s1)"
    and oi: "oneInstruction E s1 (loader M) (next_address M) = ((pcalls, Inr len), s2)"
  shows "\<exists>d M'. translate_next E H M = (Inr d, M') \<and> sleigh M' = s2 \<and>
           size_id d = scast len \<and>
           current_translate_address M' = next_address M + size_id d \<and>
           (current_translate_address M = 0 \<longrightarrow>
              next_address M = base (loader M) \<and>
              (\<forall>r \<in> set (regions (loader M)). next_address M \<le> base_address r) \<and>
              (regions (loader M) \<noteq> [] \<longrightarrow>
                 next_address M \<in> base_address ` set (regions (loader M)))) \<and>
           (current_translate_address M \<noteq> 0 \<longrightarrow>
              next_address M = current_translate_address M) \<and>
           (next_address M + size_id d \<noteq> 0 \<longrightarrow>
              next_address M' = next_address M + size_id d) \<and>
           (0 <s len \<and> unat (next_address M) + nat (sint len) < 2 ^ 64 \<longrightarrow>
              next_address M < next_address M' \<and>
              unat (next_address M') = unat (next_address M) + nat (sint len))"
proof -
  let ?a = "next_address M"
  let ?d = "(new_InsnDesc H)\<lparr>
        op_count := of_nat (length (pcode_ops (foldl (pcode_dump H) (pcode_emitter M) pcalls))),
        ops := pcode_ops (foldl (pcode_dump H) (pcode_emitter M) pcalls),
        size_id := scast len,
        insn := insn_text (foldl asm_dump (asm_emitter M) acalls),
        insn_len := insn_text_len (foldl asm_dump (asm_emitter M) acalls),
        body := insn_body (foldl asm_dump (asm_emitter M) acalls),
        body_len := insn_body_len (foldl asm_dump (asm_emitter M) acalls)\<rparr>"
  let ?M' = "M\<lparr>current_translate_address := next_address M + scast len,
       sleigh := s2,
       pcode_emitter := (foldl (pcode_dump H) (pcode_emitter M) pcalls)\<lparr>pcode_ops := []\<rparr>,
       asm_emitter := clear ((foldl asm_dump (asm_emitter M) acalls)\<lparr>insn_size := scast len\<rparr>)\<rparr>"
  have run: "translate_next E H M = (Inr ?d, ?M')"
    using pa oi by (rule translate_next_success)
  have eng: "sleigh ?M' = s2" by simp
  have sz: "size_id ?d = scast len" by simp
  have cur: "current_translate_address ?M' = ?a + size_id ?d" by simp
  have first: "current_translate_address M = 0 \<longrightarrow>
              ?a = base (loader M) \<and>
              (\<forall>r \<in> set (regions (loader M)). ?a \<le> base_address r) \<and>
              (regions (loader M) \<noteq> [] \<longrightarrow> ?a \<in> base_address ` set (regions (loader M)))"
    by (simp add: next_address_def base_lower base_attained)
  have later: "current_translate_address M \<noteq> 0 \<longrightarrow> ?a = current_translate_address M"
    by (simp add: next_address_def)
  have nz: "?a + size_id ?d \<noteq> 0 \<longrightarrow> next_address ?M' = ?a + size_id ?d"
    by (simp add: next_address_def)
  have mono: "?a < next_address ?M' \<and> unat (next_address ?M') = unat ?a + nat (sint len)"
    if pos: "0 <s len" and nw: "unat ?a + nat (sint len) < 2 ^ 64"
  proof -
    have l: "unat (scast len :: u64) = nat (sint len)" using pos by (rule unat_scast_pos)
    from pos have lpos: "0 < nat (sint len)" by (simp add: word_sless_alt)
    have sum: "unat (?a + scast len) = unat ?a + nat (sint len)"
      using nw l by (simp add: unat_word_ariths)
    with lpos have "?a + scast len \<noteq> 0" by (metis add_is_0 less_numeral_extra(3) unat_eq_0)
    then have na: "next_address ?M' = ?a + scast len" by (simp add: next_address_def)
    from sum lpos have "?a < ?a + scast len" by (simp add: word_less_nat_alt)
    with na sum show ?thesis by simp
  qed
  from run eng sz cur first later nz mono show ?thesis by blast
qed

theorem translate_next_advances_witness:
  "printAssembly example_engine (sleigh example_insn_session) (loader example_insn_session)
      (next_address example_insn_session) =
     (([\<lparr>aa_addr = 0x1000, aa_text = ''jal'', aa_body = ''0x40''\<rparr>], Inr 4), [0x1000]) \<and>
   oneInstruction example_engine [0x1000] (loader example_insn_session)
      (next_address example_insn_session) =
     (([\<lparr>pa_opcode = 1,
         pa_output = Some \<lparr>vn_space = ''register'', vn_offset = 0x10, vn_size = 4\<rparr>,
         pa_inputs = [\<lparr>vn_space = ''const'', vn_offset = 0x40, vn_size = 4\<rparr>]\<rparr>], Inr 4),
      [0x1000]) \<and>
   (\<exists>d M'. translate_next example_engine example_allocator example_insn_session = (Inr d, M') \<and>
      size_id d = 4 \<and> current_translate_address M' = 0x1004 \<and>
      next_address M' = 0x1004 \<and> next_address example_insn_session < next_address M')"
proof -
  have pa: "printAssembly example_engine (sleigh example_insn_session) (loader example_insn_session)
      (next_address example_insn_session) =
     (([\<lparr>aa_addr = 0x1000, aa_text = ''jal'', aa_body = ''0x40''\<rparr>], Inr 4), [0x1000])"
    by (simp add: next_address_example)
       (simp add: example_engine_def example_insn_session_def example_session_def)
  have oi: "oneInstruction example_engine [0x1000] (loader example_insn_session)
      (next_address example_insn_session) =
     (([\<lparr>pa_opcode = 1,
         pa_output = Some \<lparr>vn_space = ''register'', vn_offset = 0x10, vn_size = 4\<rparr>,
         pa_inputs = [\<lparr>vn_space = ''const'', vn_offset = 0x40, vn_size = 4\<rparr>]\<rparr>], Inr 4),
      [0x1000])"
    by (simp add: next_address_example) (simp add: example_engine_def)
  from translate_next_advances [OF pa oi, of example_allocator]
  obtain d M' where run: "translate_next example_engine example_allocator example_insn_session = (Inr d, M')"
    and sz: "size_id d = scast (4 :: i32)"
    and cur: "current_translate_address M' = next_address example_insn_session + size_id d"
    and nz: "next_address example_insn_session + size_id d \<noteq> 0 \<longrightarrow>
              next_address M' = next_address example_insn_session + size_id d"
    by blast
  from sz have sz4: "size_id d = 4" by simp
  with cur have cur4: "current_translate_address M' = 0x1004" by (simp add: next_address_example)
  from nz sz4 have na: "next_address M' = 0x1004" by (simp add: next_address_example)
  then have "next_address example_insn_session < next_address M'"
    by (simp add: next_address_example)
  with pa oi run sz4 cur4 na show ?thesis by blast
qed

text \<open>Claim C3 as stated fails when the cursor wraps to 0: with a four-byte instruction at
  \<open>0xFFFFFFFFFFFFFFFC\<close> the cursor becomes 0 after the first call, the second call takes
  it for a first call and decodes at \<^verbatim>\<open>loader.base()\<close> again. The engine's log shows the
  same address twice.\<close>

theorem translate_next_wraps_counterexample:
  "current_translate_address top_session = 0 \<and>
   next_address top_session = 0xFFFFFFFFFFFFFFFC \<and>
   map_sum id size_id (fst (translate_next example_engine example_allocator top_session)) = Inr 4 \<and>
   next_address top_session_1 = 0xFFFFFFFFFFFFFFFC \<and>
   next_address top_session_1 \<noteq> next_address top_session + 4 \<and>
   \<not> next_address top_session < next_address top_session_1 \<and>
   map_sum id size_id (fst (translate_next example_engine example_allocator top_session_1)) = Inr 4 \<and>
   sleigh top_session_2 = [0xFFFFFFFFFFFFFFFC, 0xFFFFFFFFFFFFFFFC]"
proof -
  have cur: "current_translate_address top_session = 0"
    by (simp add: top_session_def example_session_def)
  have n1: "next_address top_session_1 = 0xFFFFFFFFFFFFFFFC"
    by (simp add: top_session_1_eq next_address_def top_session_def example_session_def
        base_def top_loader_eq)
  have pa: "printAssembly example_engine (sleigh top_session_1) (loader top_session_1)
      (next_address top_session_1) =
      (([\<lparr>aa_addr = 0xFFFFFFFFFFFFFFFC, aa_text = ''jal'', aa_body = ''0x40''\<rparr>], Inr 4),
       [0xFFFFFFFFFFFFFFFC, 0xFFFFFFFFFFFFFFFC])"
    by (simp add: n1) (simp add: example_engine_def top_session_1_eq)
  have oi: "oneInstruction example_engine [0xFFFFFFFFFFFFFFFC, 0xFFFFFFFFFFFFFFFC]
      (loader top_session_1) (next_address top_session_1) =
      (([\<lparr>pa_opcode = 1,
          pa_output = Some \<lparr>vn_space = ''register'', vn_offset = 0x10, vn_size = 4\<rparr>,
          pa_inputs = [\<lparr>vn_space = ''const'', vn_offset = 0x40, vn_size = 4\<rparr>]\<rparr>], Inr 4),
       [0xFFFFFFFFFFFFFFFC, 0xFFFFFFFFFFFFFFFC])"
    by (simp add: n1) (simp add: example_engine_def)
  note second = translate_next_success [OF pa oi, of example_allocator]
  have s2: "sleigh top_session_2 = [0xFFFFFFFFFFFFFFFC, 0xFFFFFFFFFFFFFFFC]"
    by (simp add: top_session_2_def second)
  have sz2: "map_sum id size_id (fst (translate_next example_engine example_allocator top_session_1)) = Inr 4"
    by (simp add: second)
  have sz1: "map_sum id size_id (fst (translate_next example_engine example_allocator top_session)) = Inr 4"
    by (simp add: top_session_first)
  from cur next_address_top_session n1 s2 sz1 sz2 show ?thesis by simp
qed

text \<open>Claim C4. \<^verbatim>\<open>lift_insn\<close> never lets a \<^verbatim>\<open>BadDataError\<close> out: when either engine call
  throws it, the result is null; and the cursor after the call is the cursor before it,
  whatever the outcome.\<close>

theorem lift_insn_swallows_BadDataError:
  "current_translate_address (snd (lift_insn E H M addr)) = current_translate_address M \<and>
   (\<forall>e. fst (lift_insn E H M addr) = Inl e \<longrightarrow> \<not> catch_BadDataError e) \<and>
   (\<forall>acalls s1 msg.
      printAssembly E (sleigh M) (loader M) addr = ((acalls, Inl (BadDataError msg)), s1) \<longrightarrow>
      fst (lift_insn E H M addr) = Inr None) \<and>
   (\<forall>acalls l0 s1 pcalls s2 msg.
      printAssembly E (sleigh M) (loader M) addr = ((acalls, Inr l0), s1) \<and>
      oneInstruction E s1 (loader M) addr = ((pcalls, Inl (BadDataError msg)), s2) \<longrightarrow>
      fst (lift_insn E H M addr) = Inr None)"
proof (intro conjI allI impI)
  show "current_translate_address (snd (lift_insn E H M addr)) = current_translate_address M"
  proof (cases rule: lift_insn_cases [of E M addr])
    case print_throws
    then show ?thesis by (simp add: lift_insn_printAssembly_throws)
  next
    case pcode_throws
    then show ?thesis by (simp add: lift_insn_oneInstruction_throws)
  next
    case success
    then show ?thesis by (simp add: lift_insn_success)
  qed
next
  fix e assume res: "fst (lift_insn E H M addr) = Inl e"
  show "\<not> catch_BadDataError e"
  proof (cases rule: lift_insn_cases [of E M addr])
    case (print_throws acalls e' s1)
    with res show ?thesis by (simp add: lift_insn_printAssembly_throws split: if_splits)
  next
    case (pcode_throws acalls l0 s1 pcalls e' s2)
    with res show ?thesis by (simp add: lift_insn_oneInstruction_throws split: if_splits)
  next
    case success
    with res show ?thesis by (simp add: lift_insn_success)
  qed
next
  fix acalls s1 msg
  assume "printAssembly E (sleigh M) (loader M) addr = ((acalls, Inl (BadDataError msg)), s1)"
  then show "fst (lift_insn E H M addr) = Inr None"
    by (simp add: lift_insn_printAssembly_throws)
next
  fix acalls l0 s1 pcalls s2 msg
  assume "printAssembly E (sleigh M) (loader M) addr = ((acalls, Inr l0), s1) \<and>
      oneInstruction E s1 (loader M) addr = ((pcalls, Inl (BadDataError msg)), s2)"
  then show "fst (lift_insn E H M addr) = Inr None"
    by (simp add: lift_insn_oneInstruction_throws)
qed

theorem lift_insn_swallows_BadDataError_witness:
  "printAssembly example_engine (sleigh (example_session single_region_loader))
      (loader (example_session single_region_loader)) 0x2000 =
     (([], Inl (BadDataError ''Unable to resolve constructor'')), [0x2000]) \<and>
   fst (lift_insn example_engine example_allocator (example_session single_region_loader) 0x2000)
     = Inr None \<and>
   current_translate_address
     (snd (lift_insn example_engine example_allocator (example_session single_region_loader) 0x2000))
     = current_translate_address (example_session single_region_loader)"
  using lift_insn_swallows_BadDataError
    [of example_engine example_allocator "example_session single_region_loader" "0x2000"]
  by (simp add: example_engine_def example_session_def)

text \<open>Every decode that returns a descriptor leaves both collectors cleared.\<close>

lemma decode_success_clears_collectors:
  "(translate_next E H M = (Inr d, M') \<longrightarrow>
      pcode_ops (pcode_emitter M') = [] \<and> asm_emitter M' = clear (asm_emitter M')) \<and>
   (lift_insn E H M addr = (Inr (Some d), M') \<longrightarrow>
      pcode_ops (pcode_emitter M') = [] \<and> asm_emitter M' = clear (asm_emitter M'))"
proof (rule conjI; rule impI)
  assume run: "lift_insn E H M addr = (Inr (Some d), M')"
  show "pcode_ops (pcode_emitter M') = [] \<and> asm_emitter M' = clear (asm_emitter M')"
  proof (cases rule: lift_insn_cases [of E M addr])
    case print_throws
    with run show ?thesis by (simp add: lift_insn_printAssembly_throws split: if_splits)
  next
    case pcode_throws
    with run show ?thesis by (simp add: lift_insn_oneInstruction_throws split: if_splits)
  next
    case success
    with run show ?thesis by (auto simp: lift_insn_success clear_def)
  qed
next
  assume run: "translate_next E H M = (Inr d, M')"
  show "pcode_ops (pcode_emitter M') = [] \<and> asm_emitter M' = clear (asm_emitter M')"
  proof (cases rule: lift_insn_cases [of E M "next_address M"])
    case (print_throws acalls e s1)
    then have "fst (translate_next E H M) = Inl e"
      by (cases "current_translate_address M = 0")
         (simp_all add: translate_next_def next_address_def call_printAssembly_def Let_def)
    with run show ?thesis by simp
  next
    case (pcode_throws acalls l0 s1 pcalls e s2)
    then have "fst (translate_next E H M) = Inl e"
      by (cases "current_translate_address M = 0")
         (simp_all add: translate_next_def next_address_def call_printAssembly_def
            call_oneInstruction_def Let_def)
    with run show ?thesis by simp
  next
    case success
    with run show ?thesis by (auto simp: translate_next_success clear_def)
  qed
qed

text \<open>Claim C5 asks that the collectors are cleared also when the decode fails. The handler
  of \<^verbatim>\<open>lift_insn\<close> does not clear them: at \<open>0x3000\<close>, where the disassembly succeeds and the
  microcode fails, the call returns null on a session whose collectors were empty and
  leaves the assembly text of the failed decode in the assembly collector.\<close>

theorem lift_insn_failure_leaves_asm_collector:
  "pcode_ops (pcode_emitter example_insn_session) = [] \<and>
   asm_emitter example_insn_session = clear (asm_emitter example_insn_session) \<and>
   fst (lift_insn example_engine example_allocator example_insn_session 0x3000) = Inr None \<and>
   asm_emitter (snd (lift_insn example_engine example_allocator example_insn_session 0x3000)) =
     \<lparr>insn_size = 0, address = 0x3000, insn_text = Some ''jal'', insn_text_len = 3,
      insn_body = Some ''0x40'', insn_body_len = 4\<rparr> \<and>
   asm_emitter (snd (lift_insn example_engine example_allocator example_insn_session 0x3000)) \<noteq>
     clear (asm_emitter (snd (lift_insn example_engine example_allocator example_insn_session 0x3000)))"
proof -
  have pa: "printAssembly example_engine (sleigh example_insn_session) (loader example_insn_session)
      0x3000 =
     (([\<lparr>aa_addr = 0x3000, aa_text = ''jal'', aa_body = ''0x40''\<rparr>], Inr 4), [0x3000])"
    by (simp add: example_engine_def example_insn_session_def example_session_def)
  have oi: "oneInstruction example_engine [0x3000] (loader example_insn_session) 0x3000 =
     (([], Inl (BadDataError ''Unable to resolve constructor'')), [0x3000])"
    by (simp add: example_engine_def)
  note run = lift_insn_oneInstruction_throws [OF pa oi, of example_allocator]
  show ?thesis
    by (simp add: run)
       (simp add: example_insn_session_def example_session_def asm_dump_def clear_def
          c_str_def strdup_def NUL_def)
qed

text \<open>Claim C9. A descriptor returned by \<^verbatim>\<open>lift_insn\<close> has the caller's address in its
  address field. \<^verbatim>\<open>to_insn_desc\<close> copies the size, the two texts with their lengths and the
  operations from the collectors and leaves the address field as the allocator delivered
  it, so a descriptor returned by \<^verbatim>\<open>translate_next\<close> carries that indeterminate value,
  not the decoded address.\<close>

theorem address_assigned_only_by_lift_insn:
  "(lift_insn E H M addr = (Inr (Some d), M') \<longrightarrow> address_id d = addr) \<and>
   (translate_next E H M = (Inr d', M'') \<longrightarrow> address_id d' = address_id (new_InsnDesc H)) \<and>
   address_id (to_insn_desc H M) = address_id (new_InsnDesc H) \<and>
   size_id (to_insn_desc H M) = insn_size (asm_emitter M) \<and>
   insn (to_insn_desc H M) = insn_text (asm_emitter M) \<and>
   insn_len (to_insn_desc H M) = insn_text_len (asm_emitter M) \<and>
   body (to_insn_desc H M) = insn_body (asm_emitter M) \<and>
   body_len (to_insn_desc H M) = insn_body_len (asm_emitter M) \<and>
   ops (to_insn_desc H M) = pcode_ops (pcode_emitter M) \<and>
   op_count (to_insn_desc H M) = of_nat (length (pcode_ops (pcode_emitter M)))"
proof -
  have li: "lift_insn E H M addr = (Inr (Some d), M') \<longrightarrow> address_id d = addr"
  proof
    assume run: "lift_insn E H M addr = (Inr (Some d), M')"
    show "address_id d = addr"
    proof (cases rule: lift_insn_cases [of E M addr])
      case print_throws
      with run show ?thesis by (simp add: lift_insn_printAssembly_throws split: if_splits)
    next
      case pcode_throws
      with run show ?thesis by (simp add: lift_insn_oneInstruction_throws split: if_splits)
    next
      case success
      with run show ?thesis by (auto simp: lift_insn_success)
    qed
  qed
  have tn: "translate_next E H M = (Inr d', M'') \<longrightarrow> address_id d' = address_id (new_InsnDesc H)"
  proof
    assume run: "translate_next E H M = (Inr d', M'')"
    show "address_id d' = address_id (new_InsnDesc H)"
    proof (cases rule: lift_insn_cases [of E M "next_address M"])
      case (print_throws acalls e s1)
      then have "fst (translate_next E H M) = Inl e"
        by (cases "current_translate_address M = 0")
           (simp_all add: translate_next_def next_address_def call_printAssembly_def Let_def)
      with run show ?thesis by simp
    next
      case (pcode_throws acalls l0 s1 pcalls e s2)
      then have "fst (translate_next E H M) = Inl e"
        by (cases "current_translate_address M = 0")
           (simp_all add: translate_next_def next_address_def call_printAssembly_def
              call_oneInstruction_def Let_def)
      with run show ?thesis by simp
    next
      case success
      with run show ?thesis by (auto simp: translate_next_success)
    qed
  qed
  from li tn show ?thesis by (simp add: to_insn_desc_def)
qed

theorem address_assigned_only_by_lift_insn_witness:
  "(\<exists>d M'. lift_insn example_engine example_allocator example_insn_session 0x1000 =
        (Inr (Some d), M') \<and> address_id d = 0x1000) \<and>
   (\<exists>d' M''. translate_next example_engine example_allocator example_insn_session =
        (Inr d', M'') \<and> address_id d' = address_id (new_InsnDesc example_allocator) \<and>
        address_id d' = 0xCDCD \<and> next_address example_insn_session = 0x1000)"
proof -
  have pa: "printAssembly example_engine (sleigh example_insn_session) (loader example_insn_session)
      0x1000 =
     (([\<lparr>aa_addr = 0x1000, aa_text = ''jal'', aa_body = ''0x40''\<rparr>], Inr 4), [0x1000])"
    by (simp add: example_engine_def example_insn_session_def example_session_def)
  have oi: "oneInstruction example_engine [0x1000] (loader example_insn_session) 0x1000 =
     (([\<lparr>pa_opcode = 1,
         pa_output = Some \<lparr>vn_space = ''register'', vn_offset = 0x10, vn_size = 4\<rparr>,
         pa_inputs = [\<lparr>vn_space = ''const'', vn_offset = 0x40, vn_size = 4\<rparr>]\<rparr>], Inr 4),
      [0x1000])"
    by (simp add: example_engine_def)
  obtain d M' where li: "lift_insn example_engine example_allocator example_insn_session 0x1000 =
        (Inr (Some d), M')"
    using lift_insn_success [OF pa oi, of example_allocator] by blast
  obtain d' M'' where tn: "translate_next example_engine example_allocator example_insn_session =
        (Inr d', M'')"
    using translate_next_success [of example_engine example_insn_session _ _ _ _ _ _ example_allocator]
      pa oi by (simp add: next_address_example)
  from address_assigned_only_by_lift_insn
    [of example_engine example_allocator example_insn_session "0x1000" d M' d' M''] li tn
  have "address_id d = 0x1000" and a': "address_id d' = address_id (new_InsnDesc example_allocator)"
    by simp_all
  moreover from a' have "address_id d' = 0xCDCD" by (simp add: example_allocator_def)
  ultimately show ?thesis using li tn next_address_example by blast
qed

subsection \<open>Bounded string copies\<close>

lemma length_strncpy: "n \<le> length dest \<Longrightarrow> length (strncpy dest src n) = length dest"
  by (simp add: strncpy_def)

lemma strncpy_full:
  "length dest = n \<Longrightarrow> strncpy dest src n = take n src @ replicate (n - length src) NUL"
  by (simp add: strncpy_def)

lemma strncpy_truncates:
  "length dest = n \<Longrightarrow> n \<le> length src \<Longrightarrow> strncpy dest src n = take n src"
  by (simp add: strncpy_def)

lemma sint_of_nat_i32:
  assumes "n < 2 ^ 31"
  shows "sint (of_nat n :: i32) = int n"
proof -
  have "sint (of_nat n :: i32) = signed_take_bit (LENGTH(32) - Suc 0) (int n)"
    by (simp only: signed_of_nat of_int_eq_id id_apply)
  moreover have "signed_take_bit 31 (int n) = int n"
  proof (rule signed_take_bit_int_eq_self)
    show "- (2 ^ 31) \<le> int n" by simp
    from assms have "int n < int (2 ^ 31)" by (simp only: of_nat_less_iff)
    then show "int n < 2 ^ 31" by simp
  qed
  ultimately show ?thesis by simp
qed

lemma scast_of_nat_i32:
  assumes "n < 2 ^ 31"
  shows "(scast (of_nat n :: i32) :: u64) = of_nat n"
proof -
  have "(scast (of_nat n :: i32) :: u64) = word_of_int (sint (of_nat n :: i32))"
    by (rule scast_eq)
  also have "\<dots> = word_of_int (int n)" using assms by (simp only: sint_of_nat_i32)
  finally show ?thesis by simp
qed

lemma copy_varnode_exported:
  assumes "length (space d) = 16"
  shows "copy_varnode d vn = exported_varnode vn"
  using assms by (simp add: copy_varnode_def exported_varnode_def strncpy_full)

lemma copy_register_exported:
  assumes "length (name r) = 64" and "length (space (varnode r)) = 16"
  shows "copy_register r e = exported_register e"
  using assms
  by (cases e) (simp add: copy_register_def exported_register_def strncpy_full copy_varnode_exported)

lemma pcode_dump_exported:
  assumes vd: "length (space (new_VarnodeDesc H)) = 16"
    and len: "length (pa_inputs c) < 2 ^ 31"
  shows "pcode_dump H pe c =
     pe\<lparr>pcode_ops := pcode_ops pe @
        [\<lparr>opcode = pa_opcode c,
          output_vd = map_option exported_varnode (pa_output c),
          input_len = of_nat (length (pa_inputs c)),
          inputVarnodes = map exported_varnode (pa_inputs c)\<rparr>]\<rparr>"
proof -
  have n: "nat (sint (of_nat (length (pa_inputs c)) :: i32)) = length (pa_inputs c)"
    using len by (simp only: sint_of_nat_i32 nat_int)
  have s: "(scast (of_nat (length (pa_inputs c)) :: i32) :: u64) = of_nat (length (pa_inputs c))"
    using len by (rule scast_of_nat_i32)
  have cv: "copy_varnode (new_VarnodeDesc H) = exported_varnode"
    using vd by (intro ext) (rule copy_varnode_exported)
  show ?thesis
    by (cases "pa_output c") (simp_all add: pcode_dump_def Let_def n s cv)
qed

lemma get_all_registers_exported:
  assumes rn: "length (name (new_RegisterDesc H)) = 64"
    and rv: "length (space (varnode (new_RegisterDesc H))) = 16"
  shows "get_all_registers E H M =
     \<lparr>register_count = of_nat (length (getAllRegisters E (sleigh M))),
      registers = map exported_register (getAllRegisters E (sleigh M))\<rparr>"
proof -
  have "copy_register (new_RegisterDesc H) = exported_register"
    using rn rv by (intro ext) (rule copy_register_exported)
  then show ?thesis by (simp add: get_all_registers_def Let_def)
qed

text \<open>Claim C7. With storage of the declared capacities (\<^verbatim>\<open>char space[16]\<close>,
  \<^verbatim>\<open>char name[64]\<close>), \<^verbatim>\<open>dump\<close> appends exactly one operation whose output and input
  operands are the engine's operands exported, and \<^verbatim>\<open>get_all_registers\<close> returns exactly
  the engine's registers exported, in order. An exported name fills its field: the
  characters of the name, at most the capacity, padded with NULs; a name of at least the
  capacity is cut to the capacity, a shorter one is kept whole; every field keeps the
  length it was allocated with, so nothing is stored past it; neither function has a
  failure result. Offset and size keep their values.\<close>

theorem bounded_string_copies:
  assumes vd: "length (space (new_VarnodeDesc H)) = 16"
    and rn: "length (name (new_RegisterDesc H)) = 64"
    and rv: "length (space (varnode (new_RegisterDesc H))) = 16"
    and len: "length (pa_inputs c) < 2 ^ 31"
  shows "pcode_dump H pe c =
       pe\<lparr>pcode_ops := pcode_ops pe @
          [\<lparr>opcode = pa_opcode c,
            output_vd = map_option exported_varnode (pa_output c),
            input_len = of_nat (length (pa_inputs c)),
            inputVarnodes = map exported_varnode (pa_inputs c)\<rparr>]\<rparr> \<and>
     get_all_registers E H M =
       \<lparr>register_count = of_nat (length (getAllRegisters E (sleigh M))),
        registers = map exported_register (getAllRegisters E (sleigh M))\<rparr> \<and>
     copy_varnode (new_VarnodeDesc H) vn = exported_varnode vn \<and>
     copy_register (new_RegisterDesc H) (vn, nm) = exported_register (vn, nm) \<and>
     length (space (exported_varnode vn)) = 16 \<and>
     space (exported_varnode vn) =
       take 16 (c_str (vn_space vn)) @ replicate (16 - length (c_str (vn_space vn))) NUL \<and>
     (16 \<le> length (c_str (vn_space vn)) \<longrightarrow>
        space (exported_varnode vn) = take 16 (c_str (vn_space vn))) \<and>
     (length (c_str (vn_space vn)) \<le> 16 \<longrightarrow>
        take (length (c_str (vn_space vn))) (space (exported_varnode vn)) = c_str (vn_space vn)) \<and>
     offset (exported_varnode vn) = vn_offset vn \<and>
     unat (size_vd (exported_varnode vn)) = unat (vn_size vn) \<and>
     length (name (exported_register (vn, nm))) = 64 \<and>
     name (exported_register (vn, nm)) =
       take 64 (c_str nm) @ replicate (64 - length (c_str nm)) NUL \<and>
     (64 \<le> length (c_str nm) \<longrightarrow> name (exported_register (vn, nm)) = take 64 (c_str nm)) \<and>
     (length (c_str nm) \<le> 64 \<longrightarrow>
        take (length (c_str nm)) (name (exported_register (vn, nm))) = c_str nm) \<and>
     varnode (exported_register (vn, nm)) = exported_varnode vn \<and>
     (\<forall>op \<in> set (pcode_ops (pcode_dump H \<lparr>pcode_ops = []\<rparr> c)).
        (\<forall>d \<in> set (inputVarnodes op). length (space d) = length (space (new_VarnodeDesc H))) \<and>
        (\<forall>d \<in> set_option (output_vd op).
           length (space d) = length (space (new_VarnodeDesc H)))) \<and>
     (\<forall>r \<in> set (registers (get_all_registers E H M)).
        length (name r) = length (name (new_RegisterDesc H)) \<and>
        length (space (varnode r)) = length (space (varnode (new_RegisterDesc H))))"
proof -
  have dump: "pcode_dump H pe' c =
       pe'\<lparr>pcode_ops := pcode_ops pe' @
          [\<lparr>opcode = pa_opcode c,
            output_vd = map_option exported_varnode (pa_output c),
            input_len = of_nat (length (pa_inputs c)),
            inputVarnodes = map exported_varnode (pa_inputs c)\<rparr>]\<rparr>" for pe'
    using vd len by (rule pcode_dump_exported)
  have regs: "get_all_registers E H M =
       \<lparr>register_count = of_nat (length (getAllRegisters E (sleigh M))),
        registers = map exported_register (getAllRegisters E (sleigh M))\<rparr>"
    using rn rv by (rule get_all_registers_exported)
  have cv: "copy_varnode (new_VarnodeDesc H) vn = exported_varnode vn"
    using vd by (rule copy_varnode_exported)
  have cr: "copy_register (new_RegisterDesc H) (vn, nm) = exported_register (vn, nm)"
    using rn rv by (rule copy_register_exported)
  have lv: "length (space (exported_varnode x)) = 16" for x
    by (simp add: exported_varnode_def)
  have lr: "length (name (exported_register e)) = 64" for e
    by (simp add: exported_register_def)
  have v2: "space (exported_varnode vn) =
       take 16 (c_str (vn_space vn)) @ replicate (16 - length (c_str (vn_space vn))) NUL"
    by (simp add: exported_varnode_def)
  have v3: "16 \<le> length (c_str (vn_space vn)) \<longrightarrow>
        space (exported_varnode vn) = take 16 (c_str (vn_space vn))"
    by (simp add: exported_varnode_def)
  have v3': "length (c_str (vn_space vn)) \<le> 16 \<longrightarrow>
        take (length (c_str (vn_space vn))) (space (exported_varnode vn)) = c_str (vn_space vn)"
    by (simp add: exported_varnode_def)
  have v4: "offset (exported_varnode vn) = vn_offset vn"
    by (simp add: exported_varnode_def)
  have v5: "unat (size_vd (exported_varnode vn)) = unat (vn_size vn)"
    by (simp add: exported_varnode_def unat_ucast_u32_u64)
  have r2: "name (exported_register (vn, nm)) =
       take 64 (c_str nm) @ replicate (64 - length (c_str nm)) NUL"
    by (simp add: exported_register_def)
  have r3: "64 \<le> length (c_str nm) \<longrightarrow> name (exported_register (vn, nm)) = take 64 (c_str nm)"
    by (simp add: exported_register_def)
  have r3': "length (c_str nm) \<le> 64 \<longrightarrow>
        take (length (c_str nm)) (name (exported_register (vn, nm))) = c_str nm"
    by (simp add: exported_register_def)
  have r4: "varnode (exported_register (vn, nm)) = exported_varnode vn"
    by (simp add: exported_register_def)
  have b1: "\<forall>op \<in> set (pcode_ops (pcode_dump H \<lparr>pcode_ops = []\<rparr> c)).
        (\<forall>d \<in> set (inputVarnodes op). length (space d) = length (space (new_VarnodeDesc H))) \<and>
        (\<forall>d \<in> set_option (output_vd op).
           length (space d) = length (space (new_VarnodeDesc H)))"
    using lv vd by (cases "pa_output c") (auto simp: dump)
  have b2: "\<forall>r \<in> set (registers (get_all_registers E H M)).
        length (name r) = length (name (new_RegisterDesc H)) \<and>
        length (space (varnode r)) = length (space (varnode (new_RegisterDesc H)))"
    using lv lr rn rv by (auto simp: regs exported_register_def)
  from dump [of pe] regs cv cr lv [of vn] v2 v3 v3' v4 v5 lr [of "(vn, nm)"] r2 r3 r3' r4 b1 b2
  show ?thesis by blast
qed

text \<open>An operation whose output lies in a space with a name of 25 characters, and the
  two registers of the example engine, the second with a name of 69 characters.\<close>

theorem bounded_string_copies_witness:
  "length (space (new_VarnodeDesc example_allocator)) = 16 \<and>
   length (name (new_RegisterDesc example_allocator)) = 64 \<and>
   length (space (varnode (new_RegisterDesc example_allocator))) = 16 \<and>
   pcode_dump example_allocator \<lparr>pcode_ops = []\<rparr>
      \<lparr>pa_opcode = 1,
       pa_output = Some \<lparr>vn_space = ''a_long_address_space_name'', vn_offset = 0x40, vn_size = 4\<rparr>,
       pa_inputs = [\<lparr>vn_space = ''const'', vn_offset = 0x10, vn_size = 8\<rparr>]\<rparr> =
     \<lparr>pcode_ops =
        [\<lparr>opcode = 1,
          output_vd = Some \<lparr>space = ''a_long_address_s'', offset = 0x40, size_vd = 4\<rparr>,
          input_len = 1,
          inputVarnodes = [\<lparr>space = ''const'' @ replicate 11 NUL, offset = 0x10, size_vd = 8\<rparr>]\<rparr>]\<rparr> \<and>
   get_all_registers example_engine example_allocator example_insn_session =
     \<lparr>register_count = 2,
      registers =
        [\<lparr>name = ''zero'' @ replicate 60 NUL,
          varnode = \<lparr>space = ''register'' @ replicate 8 NUL, offset = 0, size_vd = 4\<rparr>\<rparr>,
         \<lparr>name = ''a_register_name_that_is_longer_than_the_sixty_four_bytes_of_its_'',
          varnode = \<lparr>space = ''a_long_address_s'', offset = 0x40, size_vd = 8\<rparr>\<rparr>]\<rparr>"
proof -
  have caps: "length (space (new_VarnodeDesc example_allocator)) = 16"
    "length (name (new_RegisterDesc example_allocator)) = 64"
    "length (space (varnode (new_RegisterDesc example_allocator))) = 16"
    by (simp_all add: example_allocator_def)
  have len: "length (pa_inputs
      \<lparr>pa_opcode = 1,
       pa_output = Some \<lparr>vn_space = ''a_long_address_space_name'', vn_offset = 0x40, vn_size = 4\<rparr>,
       pa_inputs = [\<lparr>vn_space = ''const'', vn_offset = 0x10, vn_size = 8\<rparr>]\<rparr>) < 2 ^ 31"
    by simp
  note inst = bounded_string_copies [OF caps len,
      where pe = "\<lparr>pcode_ops = []\<rparr>" and E = example_engine and M = example_insn_session
        and vn = "\<lparr>vn_space = ''const'', vn_offset = 0x10, vn_size = 8\<rparr>" and nm = "''zero''"]
  from inst have
    d: "pcode_dump example_allocator \<lparr>pcode_ops = []\<rparr>
      \<lparr>pa_opcode = 1,
       pa_output = Some \<lparr>vn_space = ''a_long_address_space_name'', vn_offset = 0x40, vn_size = 4\<rparr>,
       pa_inputs = [\<lparr>vn_space = ''const'', vn_offset = 0x10, vn_size = 8\<rparr>]\<rparr> =
     \<lparr>pcode_ops =
        [\<lparr>opcode = 1,
          output_vd = Some (exported_varnode
            \<lparr>vn_space = ''a_long_address_space_name'', vn_offset = 0x40, vn_size = 4\<rparr>),
          input_len = 1,
          inputVarnodes = [exported_varnode \<lparr>vn_space = ''const'', vn_offset = 0x10, vn_size = 8\<rparr>]\<rparr>]\<rparr>"
    and g: "get_all_registers example_engine example_allocator example_insn_session =
       \<lparr>register_count = of_nat (length (getAllRegisters example_engine (sleigh example_insn_session))),
        registers = map exported_register (getAllRegisters example_engine (sleigh example_insn_session))\<rparr>"
    by simp_all
  have d': "pcode_dump example_allocator \<lparr>pcode_ops = []\<rparr>
      \<lparr>pa_opcode = 1,
       pa_output = Some \<lparr>vn_space = ''a_long_address_space_name'', vn_offset = 0x40, vn_size = 4\<rparr>,
       pa_inputs = [\<lparr>vn_space = ''const'', vn_offset = 0x10, vn_size = 8\<rparr>]\<rparr> =
     \<lparr>pcode_ops =
        [\<lparr>opcode = 1,
          output_vd = Some \<lparr>space = ''a_long_address_s'', offset = 0x40, size_vd = 4\<rparr>,
          input_len = 1,
          inputVarnodes = [\<lparr>space = ''const'' @ replicate 11 NUL, offset = 0x10, size_vd = 8\<rparr>]\<rparr>]\<rparr>"
    unfolding d by (simp add: exported_varnode_def c_str_def NUL_def)
  have g': "get_all_registers example_engine example_allocator example_insn_session =
     \<lparr>register_count = 2,
      registers =
        [\<lparr>name = ''zero'' @ replicate 60 NUL,
          varnode = \<lparr>space = ''register'' @ replicate 8 NUL, offset = 0, size_vd = 4\<rparr>\<rparr>,
         \<lparr>name = ''a_register_name_that_is_longer_than_the_sixty_four_bytes_of_its_'',
          varnode = \<lparr>space = ''a_long_address_s'', offset = 0x40, size_vd = 8\<rparr>\<rparr>]\<rparr>"
    unfolding g
    by (simp add: example_engine_def exported_register_def exported_varnode_def c_str_def NUL_def)
  from caps d' g' show ?thesis by simp
qed

subsection \<open>Setting a context variable\<close>

text \<open>Claim C8. \<^verbatim>\<open>arbitrary_manager_context_var_set_default\<close> returns normally for every
  key and value: an engine failure is caught, its message is written to \<^verbatim>\<open>std::cout\<close>
  after the fixed prefix, and the returned value is the same as on success.\<close>

theorem context_var_set_default_swallows:
  "fst (arbitrary_manager_context_var_set_default E mgr key v cout) = Inr () \<and>
   snd (snd (arbitrary_manager_context_var_set_default E mgr key v cout)) =
     (case fst (setVariableDefault E (sleigh mgr) key v) of
        None \<Rightarrow> cout
      | Some err \<Rightarrow> cout @ ''[libsla ERROR]: '' @ explain err @ [CHR 0x0A])"
  by (simp add: arbitrary_manager_context_var_set_default_def context_var_set_default_def
      split: prod.splits option.splits)

theorem context_var_set_default_swallows_witness:
  "fst (setVariableDefault example_engine (sleigh example_insn_session) ''endian'' 1) =
     Some (LowlevelError ''Non-existent context variable: endian'') \<and>
   fst (arbitrary_manager_context_var_set_default example_engine example_insn_session
          ''endian'' 1 []) = Inr () \<and>
   snd (snd (arbitrary_manager_context_var_set_default example_engine example_insn_session
          ''endian'' 1 [])) =
     ''[libsla ERROR]: Non-existent context variable: endian'' @ [CHR 0x0A] \<and>
   fst (arbitrary_manager_context_var_set_default example_engine example_insn_session
          ''ISA_MODE'' 1 []) = Inr ()"
  using context_var_set_default_swallows [of example_engine example_insn_session "''endian''" 1 "[]"]
    context_var_set_default_swallows [of example_engine example_insn_session "''ISA_MODE''" 1 "[]"]
  by (simp add: example_engine_def)

section \<open>Properties of the object-file accessors\<close>

text \<open>Claim C10. The four accessors return the library's values: the section count and
  the start address with their values unchanged by the widening cast, the first and last
  section pointers as stored.\<close>

theorem bfd_accessors_pass_through:
  "unat (get_section_count bfd_count_sections abfd) = unat (bfd_count_sections abfd) \<and>
   get_start_address bfd_get_start_address abfd = bfd_get_start_address abfd \<and>
   get_sections abfd = sections abfd \<and>
   get_last_section abfd = section_last abfd"
  by (simp add: get_section_count_def get_start_address_def get_sections_def
      get_last_section_def unat_ucast_u32_u64)

theorem bfd_accessors_pass_through_witness:
  "get_section_count section_count
     \<lparr>section_count = 7, start_address = 0x401000, sections = (1::nat), section_last = 7\<rparr> = 7 \<and>
   get_start_address start_address
     \<lparr>section_count = 7, start_address = 0x401000, sections = (1::nat), section_last = 7\<rparr>
     = 0x401000 \<and>
   get_sections
     \<lparr>section_count = 7, start_address = 0x401000, sections = (1::nat), section_last = 7\<rparr> = 1 \<and>
   get_last_section
     \<lparr>section_count = 7, start_address = 0x401000, sections = (1::nat), section_last = 7\<rparr> = 7"
  using bfd_accessors_pass_through [of section_count
      "\<lparr>section_count = 7, start_address = 0x401000, sections = (1::nat), section_last = 7\<rparr>"
      start_address]
  by (simp add: get_section_count_def)

end
